theory Spec2Isabelle
  imports Main "HOL-Library.AList"
begin

section \<open>Byte strings and library helpers\<close>

text \<open>
  Go strings and byte slices are sequences of bytes; both are modelled as lists of the
  8-bit characters of HOL.
\<close>

type_synonym bytes = string

text \<open>
  \<open>strings.ToLower\<close>, on the bytes of the ASCII range: an upper-case letter is moved
  to its lower-case letter, every other byte is kept. (On a rune outside ASCII the library
  applies the Unicode mapping, whose result is never one of the letters of the three action
  names, so the comparisons of the dispatch come out the same.)
\<close>

definition lower_byte :: "char \<Rightarrow> char" where
  "lower_byte c = (let n = (of_char c :: nat) in if 65 \<le> n \<and> n \<le> 90 then char_of (n + 32) else c)"

definition ToLower :: "string \<Rightarrow> string" where
  "ToLower s = map lower_byte s"

text \<open>\<open>hex.EncodeToString\<close>: two lower-case hexadecimal digits for every byte.\<close>

definition hex_digit :: "nat \<Rightarrow> char" where
  "hex_digit n = ''0123456789abcdef'' ! (n mod 16)"

definition EncodeToString :: "bytes \<Rightarrow> string" where
  "EncodeToString bs = concat (map (\<lambda>b. [hex_digit ((of_char b :: nat) div 16), hex_digit (of_char b :: nat)]) bs)"

text \<open>
  \<open>io.ReadFull(rand.Reader, b)\<close> for a buffer of \<open>n\<close> bytes: the random source is the
  list of bytes it can still deliver; a source that delivers fewer than \<open>n\<close> bytes makes
  \<open>ReadFull\<close> return an error (\<open>None\<close>).
\<close>

definition ReadFull :: "bytes \<Rightarrow> nat \<Rightarrow> bytes option" where
  "ReadFull src n = (if length src < n then None else Some (take n src))"

text \<open>\<open>randHex\<close>: 32 random bytes in hexadecimal; a failing random source is a panic (\<open>None\<close>).\<close>

definition randHex :: "bytes \<Rightarrow> string option" where
  "randHex src = (case ReadFull src 32 of None \<Rightarrow> None | Some b \<Rightarrow> Some (EncodeToString b))"

section \<open>Headers\<close>

text \<open>
  \<open>http.Header\<close> is a Go map from header names to lists of values. It is an association
  list here; the order of the list is the order in which a \<open>range\<close> over the map yields
  its entries (Go leaves that order unspecified, so every order is a possible run).
\<close>

type_synonym header = "(string \<times> string list) list"

definition xTReqsAction :: string where "xTReqsAction = ''X-Treqs-Action''"
definition xTReqsID :: string where "xTReqsID = ''X-Treqs-Id''"
definition xTReqsKey :: string where "xTReqsKey = ''X-Treqs-Key''"

text \<open>
  \<open>Header.Get\<close>: the first value stored under the name, the empty string when there is
  none. (The library first puts the name into canonical form; \<open>scrubHeader\<close> calls it only
  with one of the three constants above, which are in canonical form already.)
\<close>

definition Get :: "header \<Rightarrow> string \<Rightarrow> string" where
  "Get hdr k = (case map_of hdr k of None \<Rightarrow> [] | Some vs \<Rightarrow> (case vs of [] \<Rightarrow> [] | v # _ \<Rightarrow> v))"

text \<open>\<open>Header.Set\<close>: the name now holds exactly the one value.\<close>

definition Set_hdr :: "string \<Rightarrow> string \<Rightarrow> header \<Rightarrow> header" where
  "Set_hdr k v hdr = AList.update k [v] hdr"

text \<open>
  The loop of \<open>scrubHeader\<close>. The first argument lists the names the \<open>range\<close> has yet to
  yield; a name whose entry was removed before it was reached is not yielded. For a name
  that is yielded the \<open>switch\<close> runs and then \<open>delete(hdr, k)\<close>, which stands after the
  \<open>switch\<close> and so runs for every name.
\<close>

fun scrub_range :: "string list \<Rightarrow> header \<Rightarrow> string \<Rightarrow> string \<Rightarrow> string \<Rightarrow> header \<times> string \<times> string \<times> string" where
  "scrub_range [] hdr key action tid = (hdr, key, action, tid)"
| "scrub_range (k # ks) hdr key action tid =
    (if map_of hdr k = None then scrub_range ks hdr key action tid
     else
       (let key' = (if k = xTReqsKey \<and> key = [] then Get hdr k else key);
            action' = (if k = xTReqsAction \<and> action = [] then Get hdr k else action);
            tid' = (if k = xTReqsID \<and> tid = [] then Get hdr k else tid)
        in scrub_range ks (AList.delete k hdr) key' action' tid'))"

text \<open>
  \<open>scrubHeader\<close> returns \<open>(key, action, id)\<close> (the source's \<open>id\<close> is \<open>tid\<close> here) and changes the header collection in
  place; the model returns the collection as the loop leaves it, too.
\<close>

definition scrubHeader :: "header \<Rightarrow> header \<times> string \<times> string \<times> string" where
  "scrubHeader hdr = scrub_range (map fst hdr) hdr [] [] []"

section \<open>Requests and response writers\<close>

record request =
  Method :: string
  URL :: string
  Header :: header

text \<open>
  The \<open>http.ResponseWriter\<close> of one request: the header map the handler may still change
  (\<open>w.Header()\<close>), the status once it is written, the headers as they stood when the
  status was written (these go on the wire), and the body written so far.
\<close>

record response =
  w_header :: header
  w_status :: "nat option"
  w_sent :: header
  w_body :: bytes

definition new_response :: response where
  "new_response = \<lparr>w_header = [], w_status = None, w_sent = [], w_body = []\<rparr>"

definition WriteHeader :: "nat \<Rightarrow> response \<Rightarrow> response" where
  "WriteHeader c w = (if w_status w = None then w\<lparr>w_status := Some c, w_sent := w_header w\<rparr> else w)"

text \<open>\<open>w.Write\<close>: the first write sends status 200 when no status has been written.\<close>

definition Write :: "bytes \<Rightarrow> response \<Rightarrow> response" where
  "Write b w = (let w' = WriteHeader 200 w in w'\<lparr>w_body := w_body w' @ b\<rparr>)"

definition Header_Set :: "string \<Rightarrow> string \<Rightarrow> response \<Rightarrow> response" where
  "Header_Set k v w = w\<lparr>w_header := Set_hdr k v (w_header w)\<rparr>"

text \<open>
  \<open>http.NotFound\<close>: the library's plain-text 404 reply.
\<close>

definition NotFound :: "response \<Rightarrow> response" where
  "NotFound w =
     Write ''404 page not found\<newline>''
       (WriteHeader 404
         (Header_Set ''X-Content-Type-Options'' ''nosniff''
           (Header_Set ''Content-Type'' ''text/plain; charset=utf-8'' w)))"

text \<open>
  What the client receives once the handler has returned: the server sends status 200
  with the headers of that moment when the handler wrote no status itself.
\<close>

definition status_of :: "response \<Rightarrow> nat" where
  "status_of w = (case w_status w of None \<Rightarrow> 200 | Some c \<Rightarrow> c)"

definition wire_header :: "response \<Rightarrow> header" where
  "wire_header w = (case w_status w of None \<Rightarrow> w_header w | Some c \<Rightarrow> w_sent w)"

section \<open>The Tracer\<close>

text \<open>
  \<open>sync.RWMutex\<close>: whether a writer holds the lock, and how many readers hold it.
  (The library also keeps new readers out while a writer waits; that only removes runs,
  and no run below has a waiting writer. Unlocking a lock that is not held is a fatal
  error of the runtime; it is an outcome of its own kind with the panics here.)
\<close>

record RWMutex =
  writer :: bool
  readers :: nat

text \<open>
  The \<open>Tracer\<close> struct. \<open>traces\<close> is a Go map value: \<open>None\<close> is the nil map, which
  can be read (every lookup misses) and cannot be assigned to.
\<close>

record Tracer =
  Handler :: "request \<Rightarrow> response \<Rightarrow> response"
  Key :: string
  mu :: RWMutex
  traces :: "(string \<rightharpoonup> bytes) option"

text \<open>
  The package has no constructor: a Tracer is the composite literal
  \<open>&Tracer{Key: k, Handler: h}\<close> of the package documentation and of the example test,
  which leaves \<open>mu\<close> and \<open>traces\<close> at their zero values.
\<close>

definition new_Tracer :: "(request \<Rightarrow> response \<Rightarrow> response) \<Rightarrow> string \<Rightarrow> Tracer" where
  "new_Tracer h k = \<lparr>Handler = h, Key = k, mu = \<lparr>writer = False, readers = 0\<rparr>, traces = None\<rparr>"

text \<open>
  What the world outside the package does during one request: the bytes the random source
  delivers, the error \<open>trace.Start\<close> returns (\<open>None\<close> when the capture starts), and the
  bytes the capture facility has written to its sink when \<open>trace.Stop\<close> returns.
\<close>

record env =
  entropy :: bytes
  start_err :: "string option"
  captured :: bytes

text \<open>
  The local state of one request: the request and the response writer, the \<open>id\<close> argument
  of \<open>read\<close> and the result of its lookup, the \<open>id\<close> and \<open>buf\<close> of \<open>trace\<close>, and the
  requests handed to the wrapped handler so far (a log kept for the statements below;
  the code has no such field).
\<close>

record frame =
  req :: request
  rw :: response
  rid :: string
  found :: "bytes option"
  sid :: string
  buf :: bytes
  served :: "request list"

text \<open>
  The statements of the handlers, one constructor for each statement that touches the
  lock, the registry, the capture facility or the wrapped handler.
\<close>

datatype op =
    Lock | Unlock | RLock | RUnlock
  | Serve
  | Lookup | Reply
  | Clear
  | NewSession | SetID | Start | Stop | Store

datatype outcome = Next Tracer frame | Return Tracer frame | Blocked | Panic string

fun step :: "env \<Rightarrow> op \<Rightarrow> Tracer \<Rightarrow> frame \<Rightarrow> outcome" where
  \<comment> \<open>\<open>t.mu.Lock()\<close>: waits until no writer and no reader holds the lock\<close>
  "step e Lock t f =
     (if \<not> writer (mu t) \<and> readers (mu t) = 0
      then Next (t\<lparr>mu := (mu t)\<lparr>writer := True\<rparr>\<rparr>) f else Blocked)"
  \<comment> \<open>\<open>t.mu.Unlock()\<close>\<close>
| "step e Unlock t f =
     (if writer (mu t)
      then Next (t\<lparr>mu := (mu t)\<lparr>writer := False\<rparr>\<rparr>) f
      else Panic ''sync: Unlock of unlocked RWMutex'')"
  \<comment> \<open>\<open>t.mu.RLock()\<close>: waits while a writer holds the lock\<close>
| "step e RLock t f =
     (if \<not> writer (mu t)
      then Next (t\<lparr>mu := (mu t)\<lparr>readers := Suc (readers (mu t))\<rparr>\<rparr>) f else Blocked)"
  \<comment> \<open>\<open>t.mu.RUnlock()\<close>\<close>
| "step e RUnlock t f =
     (if 0 < readers (mu t)
      then Next (t\<lparr>mu := (mu t)\<lparr>readers := readers (mu t) - 1\<rparr>\<rparr>) f
      else Panic ''sync: RUnlock of unlocked RWMutex'')"
  \<comment> \<open>\<open>t.Handler.ServeHTTP(w, r)\<close>\<close>
| "step e Serve t f =
     Next t (f\<lparr>rw := Handler t (req f) (rw f), served := served f @ [req f]\<rparr>)"
  \<comment> \<open>\<open>buf, ok := t.traces[id]\<close>\<close>
| "step e Lookup t f =
     Next t (f\<lparr>found := (case traces t of None \<Rightarrow> None | Some m \<Rightarrow> m (rid f))\<rparr>)"
  \<comment> \<open>\<open>if !ok { http.NotFound(w, r); return }\<close>, else the octet-stream reply; the
      deferred \<open>RUnlock\<close> follows on both paths\<close>
| "step e Reply t f =
     (case found f of
        None \<Rightarrow> Next t (f\<lparr>rw := NotFound (rw f)\<rparr>)
      | Some b \<Rightarrow>
          Next t (f\<lparr>rw := Write b (Header_Set ''Content-Type'' ''application/octet-stream'' (rw f))\<rparr>))"
  \<comment> \<open>\<open>t.traces = make(map[string]*bytes.Buffer)\<close>\<close>
| "step e Clear t f = Next (t\<lparr>traces := Some Map.empty\<rparr>) f"
  \<comment> \<open>\<open>id, buf := randHex(), bytes.NewBuffer(nil)\<close>\<close>
| "step e NewSession t f =
     (case randHex (entropy e) of
        None \<Rightarrow> Panic ''rand.Reader: read failed''
      | Some i \<Rightarrow> Next t (f\<lparr>sid := i, buf := []\<rparr>))"
  \<comment> \<open>\<open>w.Header().Set(xTReqsID, id)\<close>\<close>
| "step e SetID t f = Next t (f\<lparr>rw := Header_Set xTReqsID (sid f) (rw f)\<rparr>)"
  \<comment> \<open>\<open>if err := trace.Start(buf); err != nil { ...; return }\<close>\<close>
| "step e Start t f =
     (case start_err e of
        Some err \<Rightarrow>
          Return t (f\<lparr>rw :=
            Write (''Could not enable tracing: '' @ err @ ''\<newline>'')
              (WriteHeader 500
                (Header_Set ''Content-Type'' ''text/plain; charset=utf-8'' (rw f)))\<rparr>)
      | None \<Rightarrow> Next t f)"
  \<comment> \<open>\<open>trace.Stop()\<close>: returns once the capture is written to the sink\<close>
| "step e Stop t f = Next t (f\<lparr>buf := buf f @ captured e\<rparr>)"
  \<comment> \<open>\<open>t.traces[id] = buf\<close>: assigning to an entry of the nil map panics\<close>
| "step e Store t f =
     (case traces t of
        None \<Rightarrow> Panic ''assignment to entry in nil map''
      | Some m \<Rightarrow> Next (t\<lparr>traces := Some (m(sid f \<mapsto> buf f))\<rparr>) f)"

text \<open>The bodies of the four branches of \<open>ServeHTTP\<close>, statement by statement.\<close>

definition default_ops :: "op list" where
  "default_ops = [RLock, Serve, RUnlock]"

definition read_ops :: "op list" where
  "read_ops = [RLock, Lookup, Reply, RUnlock]"

definition reset_ops :: "op list" where
  "reset_ops = [Lock, Clear, Unlock]"

definition trace_ops :: "op list" where
  "trace_ops = [Lock, Unlock, NewSession, SetID, Start, Serve, Stop, Store]"

text \<open>The \<open>switch\<close> of \<open>ServeHTTP\<close>, on the lower-cased action.\<close>

definition ServeHTTP_switch :: "string \<Rightarrow> op list" where
  "ServeHTTP_switch a =
     (if a = ''read'' then read_ops
      else if a = ''reset'' then reset_ops
      else if a = ''trace'' then trace_ops
      else default_ops)"

text \<open>
  The start of \<open>ServeHTTP\<close>, which touches only the request and the immutable \<open>Key\<close>:
  scrub the headers, void the action on a wrong key, choose the branch.
\<close>

definition new_frame :: "request \<Rightarrow> response \<Rightarrow> string \<Rightarrow> frame" where
  "new_frame r w tid =
     \<lparr>req = r, rw = w, rid = tid, found = None, sid = [], buf = [], served = []\<rparr>"

definition enter :: "string \<Rightarrow> response \<Rightarrow> request \<Rightarrow> op list \<times> frame" where
  "enter tkey w r =
     (case scrubHeader (Header r) of
        (hdr, key, action, tid) \<Rightarrow>
          (ServeHTTP_switch (ToLower (if key \<noteq> tkey then [] else action)),
           new_frame (r\<lparr>Header := hdr\<rparr>) w tid))"

text \<open>
  One request run on its own, with no other request in between. A request that waits for
  a lock nobody will release never returns (\<open>Deadlock\<close>).
\<close>

datatype result = Done Tracer frame | Deadlock | Panicked string

fun run :: "env \<Rightarrow> op list \<Rightarrow> Tracer \<Rightarrow> frame \<Rightarrow> result" where
  "run e [] t f = Done t f"
| "run e (x # xs) t f =
     (case step e x t f of
        Next t' f' \<Rightarrow> run e xs t' f'
      | Return t' f' \<Rightarrow> Done t' f'
      | Blocked \<Rightarrow> Deadlock
      | Panic m \<Rightarrow> Panicked m)"

definition ServeHTTP :: "env \<Rightarrow> Tracer \<Rightarrow> response \<Rightarrow> request \<Rightarrow> result" where
  "ServeHTTP e t w r = (case enter (Key t) w r of (ops, f) \<Rightarrow> run e ops t f)"

text \<open>
  Several requests at once: every request is a thread with the statements it has yet to
  run; a schedule names the thread that runs the next statement. A step is impossible
  (\<open>None\<close>) for a thread that has finished, that waits for the lock, or that panics.
\<close>

type_synonym thread = "env \<times> op list \<times> frame"

definition spawn :: "Tracer \<Rightarrow> env \<Rightarrow> request \<Rightarrow> thread" where
  "spawn t e r = (case enter (Key t) new_response r of (ops, f) \<Rightarrow> (e, ops, f))"

definition sched_step :: "nat \<Rightarrow> Tracer \<times> thread list \<Rightarrow> (Tracer \<times> thread list) option" where
  "sched_step i sys =
     (case sys of (t, ths) \<Rightarrow>
        if i < length ths then
          (case ths ! i of (e, ops, f) \<Rightarrow>
             (case ops of
                [] \<Rightarrow> None
              | x # xs \<Rightarrow>
                  (case step e x t f of
                     Next t' f' \<Rightarrow> Some (t', ths[i := (e, xs, f')])
                   | Return t' f' \<Rightarrow> Some (t', ths[i := (e, [], f')])
                   | Blocked \<Rightarrow> None
                   | Panic m \<Rightarrow> None)))
        else None)"

fun schedule :: "nat list \<Rightarrow> Tracer \<times> thread list \<Rightarrow> (Tracer \<times> thread list) option" where
  "schedule [] sys = Some sys"
| "schedule (i # is) sys =
     (case sched_step i sys of None \<Rightarrow> None | Some sys' \<Rightarrow> schedule is sys')"

section \<open>Notions of the specification\<close>

text \<open>
  Case-insensitive matching in the specification's words, independent of \<open>ToLower\<close>: a
  value matches a lower-case name when it has the name's length and each of its bytes is
  the name's letter at that place, in lower or in upper case.
\<close>

definition upper_of :: "char \<Rightarrow> char option" where
  "upper_of = map_of (zip ''abcdefghijklmnopqrstuvwxyz'' ''ABCDEFGHIJKLMNOPQRSTUVWXYZ'')"

definition same_letter :: "char \<Rightarrow> char \<Rightarrow> bool" where
  "same_letter c l = (c = l \<or> Some c = upper_of l)"

definition matches_ci :: "string \<Rightarrow> string \<Rightarrow> bool" where
  "matches_ci a name = list_all2 same_letter a name"

text \<open>
  The session identifiers of the registry are the results of \<open>randHex\<close>: 64 hexadecimal
  digits each. In particular the empty string names no session.
\<close>

definition ids_ok :: "Tracer \<Rightarrow> bool" where
  "ids_ok t = (case traces t of None \<Rightarrow> True | Some m \<Rightarrow> (\<forall>i \<in> dom m. length i = 64))"

section \<open>Example values\<close>

text \<open>A wrapped handler that writes \<open>hello\<close>, the secret, and requests with the control headers.\<close>

definition hello :: "request \<Rightarrow> response \<Rightarrow> response" where
  "hello r w = Write ''hello'' w"


definition secret :: string where
  "secret = ''s3cr3t''"

text \<open>The Tracer of the documentation, and the same Tracer once a \<open>reset\<close> has run.\<close>

definition fresh_Tracer :: Tracer where
  "fresh_Tracer = new_Tracer hello secret"

definition cleared_Tracer :: Tracer where
  "cleared_Tracer = fresh_Tracer\<lparr>traces := Some Map.empty\<rparr>"

definition control_request :: "string \<Rightarrow> string \<Rightarrow> string \<Rightarrow> request" where
  "control_request k a i =
     \<lparr>Method = ''GET'', URL = ''/pi'',
      Header = [(''Accept'', [''*/*'']), (xTReqsKey, [k]), (xTReqsAction, [a]), (xTReqsID, [i])]\<rparr>"

definition plain_request :: request where
  "plain_request = \<lparr>Method = ''GET'', URL = ''/pi'', Header = [(''Accept'', [''*/*''])]\<rparr>"

text \<open>A world where the capture starts, and one where \<open>trace.Start\<close> returns an error.\<close>

definition world_ok :: env where
  "world_ok = \<lparr>entropy = ''0123456789abcdefghijklmnopqrstuv'', start_err = None,
               captured = ''go 1.21 trace''\<rparr>"

definition world_failing :: env where
  "world_failing = world_ok\<lparr>start_err := Some ''tracing is already enabled''\<rparr>"

definition world_id :: string where
  "world_id = ''303132333435363738396162636465666768696a6b6c6d6e6f70717273747576''"

section \<open>Evaluation of the example values\<close>

lemmas example_defs =
  fresh_Tracer_def cleared_Tracer_def new_Tracer_def control_request_def plain_request_def
  world_ok_def world_failing_def world_id_def hello_def secret_def

lemmas header_defs =
  scrubHeader_def xTReqsKey_def xTReqsAction_def xTReqsID_def Get_def Set_hdr_def
  AList.delete_eq

lemmas writer_defs =
  new_response_def WriteHeader_def Write_def Header_Set_def NotFound_def status_of_def
  wire_header_def

lemmas dispatch_defs =
  ServeHTTP_def enter_def new_frame_def ServeHTTP_switch_def ToLower_def lower_byte_def
  char_of_eq_iff default_ops_def read_ops_def reset_ops_def trace_ops_def

lemmas random_defs = randHex_def ReadFull_def EncodeToString_def hex_digit_def

lemma scrub_control_request:
  "scrubHeader (Header (control_request k a i)) = ([], k, a, i)"
  by (simp add: example_defs header_defs)

lemma scrub_plain_request: "scrubHeader (Header plain_request) = ([], [], [], [])"
  by (simp add: example_defs header_defs)

lemma randHex_world_ok: "randHex (entropy world_ok) = Some world_id"
  by (simp add: example_defs random_defs)

section \<open>The header scrub\<close>

lemma scrub_range_empties:
  "set (map fst hdr) \<subseteq> set ks \<Longrightarrow> fst (scrub_range ks hdr key action tid) = []"
proof (induction ks arbitrary: hdr key action tid)
  case Nil
  then show ?case by simp
next
  case (Cons k ks)
  show ?case
  proof (cases "map_of hdr k = None")
    case True
    then have "k \<notin> fst ` set hdr" by (simp add: map_of_eq_None_iff)
    with Cons.prems have "set (map fst hdr) \<subseteq> set ks" by auto
    with True Cons.IH show ?thesis by simp
  next
    case False
    from Cons.prems have "set (map fst (AList.delete k hdr)) \<subseteq> set ks"
      by (auto simp: AList.delete_eq)
    then have "fst (scrub_range ks (AList.delete k hdr) key' action' tid') = []"
      for key' action' tid' by (rule Cons.IH)
    with False show ?thesis by (auto simp: Let_def)
  qed
qed

lemma scrubHeader_empties: "fst (scrubHeader hdr) = []"
  unfolding scrubHeader_def by (rule scrub_range_empties) simp

lemma enter_eq:
  assumes "scrubHeader (Header r) = (hdr, key, action, tid)"
  shows "enter k w r =
    (ServeHTTP_switch (ToLower (if key \<noteq> k then [] else action)),
     new_frame (r\<lparr>Header := []\<rparr>) w tid)"
proof -
  from scrubHeader_empties [of "Header r"] assms have "hdr = []" by simp
  with assms show ?thesis by (simp add: enter_def)
qed

section \<open>The four branches, run on their own\<close>


lemma run_read:
  "\<not> writer (mu t) \<Longrightarrow> (case traces t of None \<Rightarrow> None | Some m \<Rightarrow> m (rid f)) = x \<Longrightarrow>
   run e read_ops t f =
     Done t (case x of
        None \<Rightarrow> f\<lparr>found := None, rw := NotFound (rw f)\<rparr>
      | Some b \<Rightarrow>
          f\<lparr>found := Some b,
            rw := Write b (Header_Set ''Content-Type'' ''application/octet-stream'' (rw f))\<rparr>)"
  by (auto simp: read_ops_def split: option.splits)

lemma run_reset:
  "\<not> writer (mu t) \<Longrightarrow> readers (mu t) = 0 \<Longrightarrow>
   run e reset_ops t f = Done (t\<lparr>traces := Some Map.empty\<rparr>) f"
  by (simp add: reset_ops_def)

lemma run_trace_failed:
  "\<not> writer (mu t) \<Longrightarrow> readers (mu t) = 0 \<Longrightarrow> randHex (entropy e) = Some i \<Longrightarrow>
   start_err e = Some err \<Longrightarrow>
   run e trace_ops t f =
     Done t (f\<lparr>sid := i, buf := [],
       rw := Write (''Could not enable tracing: '' @ err @ ''\<newline>'')
              (WriteHeader 500
                (Header_Set ''Content-Type'' ''text/plain; charset=utf-8''
                  (Header_Set xTReqsID i (rw f))))\<rparr>)"
  by (simp add: trace_ops_def)

lemma run_trace_started:
  "\<not> writer (mu t) \<Longrightarrow> readers (mu t) = 0 \<Longrightarrow> randHex (entropy e) = Some i \<Longrightarrow>
   start_err e = None \<Longrightarrow>
   run e trace_ops t f =
     (case traces t of
        None \<Rightarrow> Panicked ''assignment to entry in nil map''
      | Some m \<Rightarrow>
          Done (t\<lparr>traces := Some (m(i \<mapsto> captured e))\<rparr>)
            (f\<lparr>sid := i, buf := captured e,
               rw := Handler t (req f) (Header_Set xTReqsID i (rw f)),
               served := served f @ [req f]\<rparr>))"
  by (simp add: trace_ops_def split: option.splits)

text \<open>
  The lock of \<open>trace\<close>: \<open>Lock\<close> and \<open>Unlock\<close> are its first two statements, so the lock
  is as it was before when the third statement runs.
\<close>

lemma trace_lock_released:
  "\<not> writer (mu t) \<Longrightarrow> readers (mu t) = 0 \<Longrightarrow>
   run e (take 2 trace_ops) t f = Done t f"
  by (simp add: trace_ops_def)

section \<open>Session identifiers\<close>

lemma length_EncodeToString: "length (EncodeToString bs) = 2 * length bs"
  by (induction bs) (simp_all add: EncodeToString_def)

lemma randHex_length: "randHex src = Some i \<Longrightarrow> length i = 64"
  by (auto simp: randHex_def ReadFull_def length_EncodeToString split: if_splits)

lemma run_trace_ids_ok:
  assumes "ids_ok t" and "run e trace_ops t f = Done t' f'"
  shows "ids_ok t'"
proof (cases "\<not> writer (mu t) \<and> readers (mu t) = 0")
  case False
  with assms(2) show ?thesis by (auto simp: trace_ops_def)
next
  case free: True
  show ?thesis
  proof (cases "randHex (entropy e)")
    case None
    with free assms(2) show ?thesis by (simp add: trace_ops_def)
  next
    case (Some i)
    note i = this
    show ?thesis
    proof (cases "start_err e")
      case (Some err)
      with free i assms show ?thesis by (simp add: run_trace_failed)
    next
      case None
      note started = this
      show ?thesis
      proof (cases "traces t")
        case None
        with free i started assms(2) show ?thesis by (simp add: run_trace_started)
      next
        case (Some m)
        with free i started assms(2) have "t' = t\<lparr>traces := Some (m(i \<mapsto> captured e))\<rparr>"
          by (simp add: run_trace_started)
        moreover from assms(1) Some have "\<forall>j \<in> dom m. length j = 64"
          by (simp add: ids_ok_def)
        moreover from i have "length i = 64" by (rule randHex_length)
        ultimately show ?thesis by (simp add: ids_ok_def)
      qed
    qed
  qed
qed

lemma run_ids_ok:
  assumes "ids_ok t" and "run e (ServeHTTP_switch a) t f = Done t' f'"
  shows "ids_ok t'"
proof -
  have "ServeHTTP_switch a = read_ops \<or> ServeHTTP_switch a = reset_ops
    \<or> ServeHTTP_switch a = trace_ops \<or> ServeHTTP_switch a = default_ops"
    by (simp add: ServeHTTP_switch_def)
  then consider "ServeHTTP_switch a = read_ops" | "ServeHTTP_switch a = reset_ops"
    | "ServeHTTP_switch a = trace_ops" | "ServeHTTP_switch a = default_ops"
    by blast
  then show ?thesis
  proof cases
    case 1
    with assms show ?thesis
      by (auto simp: read_ops_def split: if_splits option.splits)
  next
    case 2
    with assms(2) show ?thesis
      by (auto simp: reset_ops_def ids_ok_def split: if_splits)
  next
    case 3
    with assms show ?thesis by (simp add: run_trace_ids_ok)
  next
    case 4
    with assms show ?thesis
      by (auto simp: default_ops_def split: if_splits)
  qed
qed

text \<open>Every request leaves the identifiers of the registry well formed.\<close>

lemma ServeHTTP_ids_ok:
  "ids_ok t \<Longrightarrow> ServeHTTP e t w r = Done t' f \<Longrightarrow> ids_ok t'"
  by (auto simp: ServeHTTP_def enter_def split: prod.splits dest: run_ids_ok)

lemma new_Tracer_ids_ok: "ids_ok (new_Tracer h k)"
  by (simp add: ids_ok_def new_Tracer_def)

lemma ids_ok_empty_id:
  assumes "ids_ok t"
  shows "(case traces t of None \<Rightarrow> None | Some m \<Rightarrow> m []) = None"
proof (cases "traces t")
  case None
  then show ?thesis by simp
next
  case (Some m)
  have "m [] = None"
  proof (rule ccontr)
    assume "m [] \<noteq> None"
    then have "[] \<in> dom m" by (simp add: dom_def)
    moreover from assms Some have "\<forall>i \<in> dom m. length i = 64" by (simp add: ids_ok_def)
    ultimately have "length ([] :: string) = 64" by blast
    then show False by simp
  qed
  with Some show ?thesis by simp
qed

section \<open>Case-insensitive matching\<close>

lemma of_char_plus_32:
  assumes "(of_char c :: nat) \<le> 90"
  shows "char_of ((of_char c :: nat) + 32) = l \<longleftrightarrow> (of_char c :: nat) + 32 = of_char l"
proof -
  from assms have "(of_char c :: nat) + 32 < 2 ^ 8" by simp
  then have "take_bit 8 ((of_char c :: nat) + 32) = of_char c + 32"
    by (rule take_bit_nat_eq_self)
  then show ?thesis by (simp add: char_of_eq_iff)
qed

lemma lower_byte_eq_iff:
  assumes "97 \<le> (of_char l::nat)" "(of_char l::nat) \<le> 122"
  shows "lower_byte c = l \<longleftrightarrow> c = l \<or> (of_char c :: nat) + 32 = of_char l"
  using assms by (auto simp: lower_byte_def Let_def of_char_plus_32)

lemma lower_byte_letter:
  assumes "(of_char l :: nat) = of_char u + 32" "65 \<le> (of_char u :: nat)" "(of_char u :: nat) \<le> 90"
  shows "lower_byte c = l \<longleftrightarrow> c = l \<or> c = u"
proof -
  from assms have "97 \<le> (of_char l::nat)" "(of_char l::nat) \<le> 122" by simp_all
  then have "lower_byte c = l \<longleftrightarrow> c = l \<or> (of_char c :: nat) + 32 = of_char l"
    by (rule lower_byte_eq_iff)
  moreover have "(of_char c :: nat) + 32 = of_char l \<longleftrightarrow> (of_char c :: nat) = of_char u"
    using assms(1) by simp
  moreover have "(of_char c :: nat) = of_char u \<longleftrightarrow> c = u" by simp
  ultimately show ?thesis by simp
qed

lemma same_letter_t: "lower_byte c = CHR ''t'' \<longleftrightarrow> same_letter c (CHR ''t'')"
  using lower_byte_letter [of "CHR ''t''" "CHR ''T''" c] by (simp add: same_letter_def upper_of_def)

lemma same_letter_r: "lower_byte c = CHR ''r'' \<longleftrightarrow> same_letter c (CHR ''r'')"
  using lower_byte_letter [of "CHR ''r''" "CHR ''R''" c] by (simp add: same_letter_def upper_of_def)

lemma same_letter_a: "lower_byte c = CHR ''a'' \<longleftrightarrow> same_letter c (CHR ''a'')"
  using lower_byte_letter [of "CHR ''a''" "CHR ''A''" c] by (simp add: same_letter_def upper_of_def)

lemma same_letter_c: "lower_byte c = CHR ''c'' \<longleftrightarrow> same_letter c (CHR ''c'')"
  using lower_byte_letter [of "CHR ''c''" "CHR ''C''" c] by (simp add: same_letter_def upper_of_def)

lemma same_letter_e: "lower_byte c = CHR ''e'' \<longleftrightarrow> same_letter c (CHR ''e'')"
  using lower_byte_letter [of "CHR ''e''" "CHR ''E''" c] by (simp add: same_letter_def upper_of_def)

lemma same_letter_d: "lower_byte c = CHR ''d'' \<longleftrightarrow> same_letter c (CHR ''d'')"
  using lower_byte_letter [of "CHR ''d''" "CHR ''D''" c] by (simp add: same_letter_def upper_of_def)

lemma same_letter_s: "lower_byte c = CHR ''s'' \<longleftrightarrow> same_letter c (CHR ''s'')"
  using lower_byte_letter [of "CHR ''s''" "CHR ''S''" c] by (simp add: same_letter_def upper_of_def)

lemmas same_letter_lower =
  same_letter_t same_letter_r same_letter_a same_letter_c same_letter_e same_letter_d
  same_letter_s

lemma ToLower_trace: "ToLower a = ''trace'' \<longleftrightarrow> matches_ci a ''trace''"
  by (simp add: ToLower_def matches_ci_def map_eq_Cons_conv list_all2_Cons2 same_letter_lower)

lemma ToLower_read: "ToLower a = ''read'' \<longleftrightarrow> matches_ci a ''read''"
  by (simp add: ToLower_def matches_ci_def map_eq_Cons_conv list_all2_Cons2 same_letter_lower)

lemma ToLower_reset: "ToLower a = ''reset'' \<longleftrightarrow> matches_ci a ''reset''"
  by (simp add: ToLower_def matches_ci_def map_eq_Cons_conv list_all2_Cons2 same_letter_lower)


section \<open>Properties of the handlers\<close>

subsection \<open>The header scrub and the wrapped handler\<close>

lemma step_served:
  assumes "step e x t f = Next t' f' \<or> step e x t f = Return t' f'"
    and "Header (req f) = []" and "list_all (\<lambda>q. Header q = []) (served f)"
  shows "Header (req f') = [] \<and> list_all (\<lambda>q. Header q = []) (served f')"
  using assms by (cases x) (auto split: if_splits option.splits)

lemma run_served:
  "run e xs t f = Done t' f' \<Longrightarrow> Header (req f) = [] \<Longrightarrow>
   list_all (\<lambda>q. Header q = []) (served f) \<Longrightarrow> list_all (\<lambda>q. Header q = []) (served f')"
proof (induction xs arbitrary: t f)
  case Nil
  then show ?case by simp
next
  case (Cons x xs)
  show ?case
  proof (cases "step e x t f")
    case (Next t1 f1)
    with Cons.prems(2,3) have "Header (req f1) = [] \<and> list_all (\<lambda>q. Header q = []) (served f1)"
      by (intro step_served [of e x t f t1 f1]) simp_all
    moreover from Next Cons.prems(1) have "run e xs t1 f1 = Done t' f'" by simp
    ultimately show ?thesis using Cons.IH by blast
  next
    case (Return t1 f1)
    with Cons.prems(2,3) have "Header (req f1) = [] \<and> list_all (\<lambda>q. Header q = []) (served f1)"
      by (intro step_served [of e x t f t1 f1]) simp_all
    moreover from Return Cons.prems(1) have "f' = f1" by simp
    ultimately show ?thesis by simp
  next
    case Blocked
    with Cons.prems(1) show ?thesis by simp
  next
    case (Panic m)
    with Cons.prems(1) show ?thesis by simp
  qed
qed

lemma enter_no_header: "Header (req (snd (enter k w r))) = []"
proof -
  obtain hdr key action tid where "scrubHeader (Header r) = (hdr, key, action, tid)"
    by (cases "scrubHeader (Header r)") auto
  then show ?thesis by (simp add: enter_eq new_frame_def)
qed

text \<open>
  C10. The scrub that precedes the dispatch deletes every header of the request, not only
  the three control headers: \<open>scrubHeader\<close> leaves the header collection empty whatever
  it held, the request that \<open>ServeHTTP\<close> goes on with has no header, and every request
  the wrapped handler was given by a request that returned has no header.
\<close>

theorem scrub_deletes_every_header:
  "fst (scrubHeader hdr) = [] \<and>
   Header (req (snd (enter k w r))) = [] \<and>
   (case ServeHTTP e t w r of
      Done t' f \<Rightarrow> list_all (\<lambda>q. Header q = []) (served f)
    | Deadlock \<Rightarrow> True
    | Panicked m \<Rightarrow> True)"
proof -
  have "list_all (\<lambda>q. Header q = []) (served f)" if "ServeHTTP e t w r = Done t' f" for t' f
  proof -
    obtain ops f0 where en: "enter (Key t) w r = (ops, f0)" by (cases "enter (Key t) w r") auto
    with enter_no_header [of "Key t" w r] have "Header (req f0) = []" by simp
    moreover from en have "served f0 = []"
      by (auto simp: enter_def new_frame_def split: prod.splits)
    moreover from that en have "run e ops t f0 = Done t' f" by (simp add: ServeHTTP_def)
    ultimately show ?thesis using run_served [of e ops t f0 t' f] by simp
  qed
  then show ?thesis
    by (simp add: scrubHeader_empties enter_no_header split: result.splits)
qed

theorem scrub_deletes_every_header_witness:
  "fst (scrubHeader [(''Accept'', [''*/*'']), (''Cookie'', [''a=b'']), (''X-Treqs-Key'', [''k''])]) = [] \<and>
   ServeHTTP world_ok cleared_Tracer new_response plain_request =
     Done cleared_Tracer
       ((new_frame (plain_request\<lparr>Header := []\<rparr>) new_response [])
          \<lparr>rw := Write ''hello'' new_response, served := [plain_request\<lparr>Header := []\<rparr>]\<rparr>)"
  using scrub_deletes_every_header
    [of "[(''Accept'', [''*/*'']), (''Cookie'', [''a=b'']), (''X-Treqs-Key'', [''k''])]"
      secret new_response plain_request world_ok cleared_Tracer]
  by (simp add: example_defs header_defs dispatch_defs writer_defs)

subsection \<open>Authorization\<close>




subsection \<open>The dispatch on the action\<close>



subsection \<open>The read action\<close>

text \<open>
  C6. A read action with the correct key, on a fresh response writer and with no writer
  holding the lock, leaves the Tracer as it was. When the id header names a stored session
  the response has status 200, the content type \<open>application/octet-stream\<close> and exactly
  the stored bytes as its body; when the id names no session the response has status 404.
  The empty id names no session of a registry whose identifiers came from \<open>randHex\<close>, so
  it is answered with 404 as well.
\<close>

theorem read_serves_stored_bytes:
  assumes "scrubHeader (Header r) = (hdr, key, action, tid)"
    and "key = Key t"
    and "matches_ci action ''read''"
    and "\<not> writer (mu t)"
  shows "case ServeHTTP e t new_response r of
      Done t' f \<Rightarrow>
        t' = t \<and>
        (case (case traces t of None \<Rightarrow> None | Some m \<Rightarrow> m tid) of
           Some b \<Rightarrow>
             status_of (rw f) = 200 \<and>
             map_of (wire_header (rw f)) ''Content-Type'' = Some [''application/octet-stream''] \<and>
             w_body (rw f) = b
         | None \<Rightarrow> status_of (rw f) = 404) \<and>
        (ids_ok t \<and> tid = [] \<longrightarrow> status_of (rw f) = 404)
    | Deadlock \<Rightarrow> False
    | Panicked m \<Rightarrow> False"
proof -
  from assms(3) have "ToLower action = ''read''" by (simp add: ToLower_read)
  with assms(1,2) have en: "enter (Key t) new_response r =
      (read_ops, new_frame (r\<lparr>Header := []\<rparr>) new_response tid)"
    by (simp add: enter_eq ServeHTTP_switch_def)
  let ?f = "new_frame (r\<lparr>Header := []\<rparr>) new_response tid"
  show ?thesis
  proof (cases "case traces t of None \<Rightarrow> None | Some m \<Rightarrow> m tid")
    case None
    then have "(case traces t of None \<Rightarrow> None | Some m \<Rightarrow> m (rid ?f)) = None"
      by (cases "traces t") (simp_all add: new_frame_def)
    with assms(4) have "run e read_ops t ?f =
        Done t (?f\<lparr>found := None, rw := NotFound (rw ?f)\<rparr>)"
      by (simp add: run_read)
    with en None show ?thesis
      by (simp add: ServeHTTP_def new_frame_def writer_defs Set_hdr_def)
  next
    case (Some b)
    then have "(case traces t of None \<Rightarrow> None | Some m \<Rightarrow> m (rid ?f)) = Some b"
      by (cases "traces t") (simp_all add: new_frame_def)
    with assms(4) have "run e read_ops t ?f =
        Done t (?f\<lparr>found := Some b,
          rw := Write b (Header_Set ''Content-Type'' ''application/octet-stream'' (rw ?f))\<rparr>)"
      by (simp add: run_read)
    moreover from Some have "\<not> (ids_ok t \<and> tid = [])"
      using ids_ok_empty_id [of t] by auto
    ultimately show ?thesis using en Some
      by (simp add: ServeHTTP_def new_frame_def writer_defs Set_hdr_def)
  qed
qed

theorem read_serves_stored_bytes_witness:
  "(case ServeHTTP world_ok (cleared_Tracer\<lparr>traces := Some [world_id \<mapsto> ''go 1.21 trace'']\<rparr>)
      new_response (control_request secret ''Read'' world_id) of
      Done t' f \<Rightarrow>
        status_of (rw f) = 200 \<and> w_body (rw f) = ''go 1.21 trace'' \<and>
        map_of (wire_header (rw f)) ''Content-Type'' = Some [''application/octet-stream'']
    | Deadlock \<Rightarrow> False
    | Panicked m \<Rightarrow> False) \<and>
   (case ServeHTTP world_ok (cleared_Tracer\<lparr>traces := Some [world_id \<mapsto> ''go 1.21 trace'']\<rparr>)
      new_response (control_request secret ''read'' ''bogus'') of
      Done t' f \<Rightarrow> status_of (rw f) = 404 \<and> traces t' = Some [world_id \<mapsto> ''go 1.21 trace'']
    | Deadlock \<Rightarrow> False
    | Panicked m \<Rightarrow> False)"
  using
    read_serves_stored_bytes
      [of "control_request secret ''Read'' world_id" "[]" secret "''Read''" world_id
        "cleared_Tracer\<lparr>traces := Some [world_id \<mapsto> ''go 1.21 trace'']\<rparr>" world_ok]
    read_serves_stored_bytes
      [of "control_request secret ''read'' ''bogus''" "[]" secret "''read''" "''bogus''"
        "cleared_Tracer\<lparr>traces := Some [world_id \<mapsto> ''go 1.21 trace'']\<rparr>" world_ok]
  by (simp add: scrub_control_request matches_ci_def same_letter_def upper_of_def
      cleared_Tracer_def fresh_Tracer_def new_Tracer_def world_id_def split: result.splits)

subsection \<open>A capture that fails to start\<close>

text \<open>
  C7. A trace action with the correct key whose capture fails to start (\<open>trace.Start\<close> is
  reached and returns an error) is answered with status 500, the content type
  \<open>text/plain; charset=utf-8\<close> and the diagnostic text as body; the wrapped handler is
  not called, and the Tracer, its registry included, is left as it was.
\<close>

theorem capture_start_failure:
  assumes "scrubHeader (Header r) = (hdr, key, action, tid)"
    and "key = Key t"
    and "matches_ci action ''trace''"
    and "\<not> writer (mu t)" and "readers (mu t) = 0"
    and "randHex (entropy e) = Some i"
    and "start_err e = Some err"
  shows "case ServeHTTP e t new_response r of
      Done t' f \<Rightarrow>
        t' = t \<and>
        status_of (rw f) = 500 \<and>
        map_of (wire_header (rw f)) ''Content-Type'' = Some [''text/plain; charset=utf-8''] \<and>
        w_body (rw f) = ''Could not enable tracing: '' @ err @ ''\<newline>'' \<and>
        served f = []
    | Deadlock \<Rightarrow> False
    | Panicked m \<Rightarrow> False"
proof -
  from assms(3) have "ToLower action = ''trace''" by (simp add: ToLower_trace)
  with assms(1,2) have "enter (Key t) new_response r =
      (trace_ops, new_frame (r\<lparr>Header := []\<rparr>) new_response tid)"
    by (simp add: enter_eq ServeHTTP_switch_def)
  with assms(4-7) show ?thesis
    by (simp add: ServeHTTP_def run_trace_failed new_frame_def writer_defs Set_hdr_def
        xTReqsID_def)
qed

theorem capture_start_failure_witness:
  "case ServeHTTP world_failing (cleared_Tracer\<lparr>traces := Some [''old'' \<mapsto> ''bytes'']\<rparr>)
      new_response (control_request secret ''trace'' []) of
      Done t' f \<Rightarrow>
        traces t' = Some [''old'' \<mapsto> ''bytes''] \<and>
        status_of (rw f) = 500 \<and>
        w_body (rw f) = ''Could not enable tracing: tracing is already enabled\<newline>'' \<and>
        served f = []
    | Deadlock \<Rightarrow> False
    | Panicked m \<Rightarrow> False"
  using
    capture_start_failure
      [of "control_request secret ''trace'' []" "[]" secret "''trace''" "[]"
        "cleared_Tracer\<lparr>traces := Some [''old'' \<mapsto> ''bytes'']\<rparr>" world_failing world_id
        "''tracing is already enabled''"]
    randHex_world_ok
  by (simp add: scrub_control_request matches_ci_def same_letter_def upper_of_def
      cleared_Tracer_def fresh_Tracer_def new_Tracer_def world_failing_def
      split: result.splits)

subsection \<open>The reset action\<close>

text \<open>
  C8. A reset action with the correct key replaces the registry with an empty one, so a
  read action that follows it is answered with status 404 whatever id it names, the ids
  that named a session before the reset among them.
\<close>

theorem reset_then_read_not_found:
  assumes "scrubHeader (Header r) = (hdr, key, action, tid)"
    and "key = Key t"
    and "matches_ci action ''reset''"
    and "\<not> writer (mu t)" and "readers (mu t) = 0"
    and "scrubHeader (Header r') = (hdr', key', action', tid')"
    and "key' = Key t"
    and "matches_ci action' ''read''"
  shows "case ServeHTTP e t w r of
      Done t1 f1 \<Rightarrow>
        traces t1 = Some Map.empty \<and> rw f1 = w \<and>
        (case ServeHTTP e' t1 new_response r' of
           Done t2 f2 \<Rightarrow> status_of (rw f2) = 404 \<and> t2 = t1
         | Deadlock \<Rightarrow> False
         | Panicked m \<Rightarrow> False)
    | Deadlock \<Rightarrow> False
    | Panicked m \<Rightarrow> False"
proof -
  from assms(3) have "ToLower action = ''reset''" by (simp add: ToLower_reset)
  with assms(1,2) have "enter (Key t) w r = (reset_ops, new_frame (r\<lparr>Header := []\<rparr>) w tid)"
    by (simp add: enter_eq ServeHTTP_switch_def)
  with assms(4,5) have 1: "ServeHTTP e t w r =
      Done (t\<lparr>traces := Some Map.empty\<rparr>) (new_frame (r\<lparr>Header := []\<rparr>) w tid)"
    by (simp add: ServeHTTP_def run_reset)
  from assms(8) have "ToLower action' = ''read''" by (simp add: ToLower_read)
  with assms(6,7) have "enter (Key t) new_response r' =
      (read_ops, new_frame (r'\<lparr>Header := []\<rparr>) new_response tid')"
    by (simp add: enter_eq ServeHTTP_switch_def)
  with assms(4) have 2: "ServeHTTP e' (t\<lparr>traces := Some Map.empty\<rparr>) new_response r' =
      Done (t\<lparr>traces := Some Map.empty\<rparr>)
        ((new_frame (r'\<lparr>Header := []\<rparr>) new_response tid')\<lparr>found := None,
          rw := NotFound new_response\<rparr>)"
    by (simp add: ServeHTTP_def run_read [where x = None] new_frame_def)
  from 1 2 show ?thesis by (simp add: new_frame_def writer_defs)
qed

theorem reset_then_read_not_found_witness:
  "(case ServeHTTP world_ok (cleared_Tracer\<lparr>traces := Some [world_id \<mapsto> ''go 1.21 trace'']\<rparr>)
      new_response (control_request secret ''read'' world_id) of
      Done t1 f1 \<Rightarrow> status_of (rw f1) = 200
    | Deadlock \<Rightarrow> False
    | Panicked m \<Rightarrow> False) \<and>
   (case ServeHTTP world_ok (cleared_Tracer\<lparr>traces := Some [world_id \<mapsto> ''go 1.21 trace'']\<rparr>)
      new_response (control_request secret ''reset'' []) of
      Done t1 f1 \<Rightarrow>
        traces t1 = Some Map.empty \<and> rw f1 = new_response \<and>
        (case ServeHTTP world_ok t1 new_response (control_request secret ''read'' world_id) of
           Done t2 f2 \<Rightarrow> status_of (rw f2) = 404 \<and> t2 = t1
         | Deadlock \<Rightarrow> False
         | Panicked m \<Rightarrow> False)
    | Deadlock \<Rightarrow> False
    | Panicked m \<Rightarrow> False)"
proof -
  have "case ServeHTTP world_ok (cleared_Tracer\<lparr>traces := Some [world_id \<mapsto> ''go 1.21 trace'']\<rparr>)
      new_response (control_request secret ''read'' world_id) of
      Done t1 f1 \<Rightarrow> status_of (rw f1) = 200
    | Deadlock \<Rightarrow> False
    | Panicked m \<Rightarrow> False"
    by (simp add: example_defs header_defs dispatch_defs writer_defs)
  moreover have "case ServeHTTP world_ok (cleared_Tracer\<lparr>traces := Some [world_id \<mapsto> ''go 1.21 trace'']\<rparr>)
      new_response (control_request secret ''reset'' []) of
      Done t1 f1 \<Rightarrow>
        traces t1 = Some Map.empty \<and> rw f1 = new_response \<and>
        (case ServeHTTP world_ok t1 new_response (control_request secret ''read'' world_id) of
           Done t2 f2 \<Rightarrow> status_of (rw f2) = 404 \<and> t2 = t1
         | Deadlock \<Rightarrow> False
         | Panicked m \<Rightarrow> False)
    | Deadlock \<Rightarrow> False
    | Panicked m \<Rightarrow> False"
    using reset_then_read_not_found
      [where r = "control_request secret ''reset'' []" and hdr = "[]" and key = secret
        and action = "''reset''" and tid = "[]"
        and t = "cleared_Tracer\<lparr>traces := Some [world_id \<mapsto> ''go 1.21 trace'']\<rparr>"
        and r' = "control_request secret ''read'' world_id" and hdr' = "[]" and key' = secret
        and action' = "''read''" and tid' = world_id
        and e = world_ok and w = new_response and e' = world_ok]
    by (simp add: scrub_control_request matches_ci_def same_letter_def upper_of_def
        cleared_Tracer_def fresh_Tracer_def new_Tracer_def)
  ultimately show ?thesis by simp
qed

section \<open>Departures from the documented behaviour\<close>

lemmas schedule_defs = spawn_def sched_step_def

text \<open>
  The first trace of a Tracer made as the documentation makes it, for any wrapped handler
  and key: the capture runs, and the assignment to the nil map panics.
\<close>

lemma new_Tracer_trace_panics:
  assumes "scrubHeader (Header r) = (hdr, key, action, tid)"
    and "key = k"
    and "matches_ci action ''trace''"
    and "randHex (entropy e) = Some i"
    and "start_err e = None"
  shows "ServeHTTP e (new_Tracer h k) w r = Panicked ''assignment to entry in nil map''"
proof -
  from assms(3) have "ToLower action = ''trace''" by (simp add: ToLower_trace)
  with assms(1,2) have "enter k w r = (trace_ops, new_frame (r\<lparr>Header := []\<rparr>) w tid)"
    by (simp add: enter_eq ServeHTTP_switch_def)
  with assms(4,5) show ?thesis
    by (simp add: ServeHTTP_def new_Tracer_def run_trace_started)
qed

text \<open>
  C3. The registry of a freshly made Tracer is the nil map, not an empty map. The first
  trace action on it, with the correct key and a capture that starts, calls the wrapped
  handler and then panics at the store; no session is stored.
\<close>

theorem first_trace_panics_at_store:
  "ServeHTTP world_ok fresh_Tracer new_response (control_request secret ''trace'' []) =
     Panicked ''assignment to entry in nil map''"
  by (simp add: example_defs header_defs dispatch_defs random_defs writer_defs)

text \<open>
  C4. The id header is set before the capture is started. When the capture fails to
  start, the response has status 500 and carries the id header all the same, with an id
  that names no session of the registry.
\<close>

theorem failed_trace_carries_id_header:
  "case ServeHTTP world_failing cleared_Tracer new_response (control_request secret ''trace'' []) of
     Done t f \<Rightarrow>
       status_of (rw f) = 500 \<and>
       map_of (wire_header (rw f)) xTReqsID = Some [world_id] \<and>
       traces t = Some Map.empty
   | Deadlock \<Rightarrow> False
   | Panicked m \<Rightarrow> False"
  by (simp add: example_defs header_defs dispatch_defs random_defs writer_defs)

text \<open>
  C1. The trace action releases the exclusive lock right after taking it, before the
  capture. In the run below a trace request takes and releases the lock, makes its id and
  starts the capture; then a pass-through request, which starts only now, takes the shared
  lock, has the wrapped handler write its response, releases the lock and is complete.
  The trace request has yet to call the wrapped handler, to stop the capture and to store
  the session: the pass-through request began and completed inside the capture.
\<close>

theorem pass_through_completes_inside_capture:
  "case schedule [0, 0, 0, 0, 0, 1, 1, 1]
      (cleared_Tracer,
       [spawn cleared_Tracer world_ok (control_request secret ''trace'' []),
        spawn cleared_Tracer world_ok plain_request]) of
     Some (t, [(e0, ops0, f0), (e1, ops1, f1)]) \<Rightarrow>
       ops0 = [Serve, Stop, Store] \<and>
       ops1 = [] \<and>
       served f1 = [plain_request\<lparr>Header := []\<rparr>] \<and>
       status_of (rw f1) = 200 \<and> w_body (rw f1) = ''hello'' \<and>
       mu t = \<lparr>writer = False, readers = 0\<rparr>
   | _ \<Rightarrow> False"
  by (simp add: example_defs header_defs dispatch_defs random_defs writer_defs schedule_defs)

text \<open>
  The sibling paths hold their locks. A reset request reaches its clear with the writer
  flag set, and no other request can take either lock before it has finished; a read
  request reaches its lookup with the reader count raised.
\<close>

lemma reset_clears_under_exclusive_lock:
  "schedule [0]
      (fresh_Tracer,
       [spawn fresh_Tracer world_ok (control_request secret ''reset'' []),
        spawn fresh_Tracer world_ok plain_request]) =
     Some (fresh_Tracer\<lparr>mu := \<lparr>writer = True, readers = 0\<rparr>\<rparr>,
       [(world_ok, [Clear, Unlock],
         new_frame ((control_request secret ''reset'' [])\<lparr>Header := []\<rparr>) new_response []),
        spawn fresh_Tracer world_ok plain_request]) \<and>
   schedule [0, 1]
      (fresh_Tracer,
       [spawn fresh_Tracer world_ok (control_request secret ''reset'' []),
        spawn fresh_Tracer world_ok plain_request]) = None"
  by (simp add: example_defs header_defs dispatch_defs writer_defs schedule_defs)

lemma read_looks_up_under_shared_lock:
  "schedule [0]
      (fresh_Tracer, [spawn fresh_Tracer world_ok (control_request secret ''read'' ''bogus'')]) =
     Some (fresh_Tracer\<lparr>mu := \<lparr>writer = False, readers = 1\<rparr>\<rparr>,
       [(world_ok, [Lookup, Reply, RUnlock],
         new_frame ((control_request secret ''read'' ''bogus'')\<lparr>Header := []\<rparr>) new_response
           ''bogus'')])"
  by (simp add: example_defs header_defs dispatch_defs writer_defs schedule_defs)

text \<open>
  C2. The insert of the trace action runs after the exclusive lock was released. In the
  run below a trace request takes and releases the lock; a read request then takes the
  shared lock; the trace request goes on to its last statement, the store. At that moment
  no writer holds the lock and one reader does, and the next step of the trace request
  puts the session into the registry with the lock in that very state.
\<close>

theorem registry_insert_without_exclusive_lock:
  "case schedule [0, 0, 1, 0, 0, 0, 0, 0]
      (cleared_Tracer,
       [spawn cleared_Tracer world_ok (control_request secret ''trace'' []),
        spawn cleared_Tracer world_ok (control_request secret ''read'' ''bogus'')]) of
     Some (t, ths) \<Rightarrow>
       map (fst \<circ> snd) ths = [[Store], [Lookup, Reply, RUnlock]] \<and>
       mu t = \<lparr>writer = False, readers = 1\<rparr> \<and>
       traces t = Some Map.empty \<and>
       (case sched_step 0 (t, ths) of
          Some (t', ths') \<Rightarrow>
            traces t' = Some [world_id \<mapsto> ''go 1.21 trace''] \<and>
            mu t' = \<lparr>writer = False, readers = 1\<rparr>
        | None \<Rightarrow> False)
   | None \<Rightarrow> False"
  by (simp add: example_defs header_defs dispatch_defs random_defs writer_defs schedule_defs)

end
